theory Spec2Isabelle
  imports Complex_Main "HOL-Library.Word"
begin

unbundle bit_operations_syntax

section \<open>The rotation-stage controller of \<open>thorlabs_KPRM1E.py\<close>\<close>

text \<open>
  The development embeds the class \<open>Controller\<close> of \<open>thorlabs_KPRM1E.py\<close>. The object is a
  record, every method takes the record and returns it updated, an exception is a value
  of \<open>error\<close> returned together with the state the object has when it is raised, and the
  two polling loops (\<open>while True\<close>) take fuel: \<open>None\<close> is a loop that has not ended
  within the fuel.

  Three conventions hold throughout.
  \<^item> Python's \<open>float\<close> values are real numbers here and their arithmetic is exact: the
    rounding of IEEE doubles is not part of the model.
  \<^item> Console output (\<open>print\<close>) and \<open>time.sleep\<close> are left out; the flag \<open>verbose\<close>, which
    the loops switch off and on, is kept.
  \<^item> The serial port is outside the program. It is a record holding the input buffer, the
    read timeout, the log of the operations performed on it, and a script of the byte
    chunks the device delivers: the next chunk reaches the input buffer during the next
    port operation, and an exhausted script delivers nothing.
\<close>

subsection \<open>Bytes\<close>

type_synonym byte = "8 word"

datatype error =
    AssertionError | IndexError | TypeError | UnicodeDecodeError
  | OverflowError | ZeroDivisionError | AttributeError | IOError

text \<open>\<open>r[a:b]\<close>: a slice never raises and is cut at the end of \<open>r\<close>.\<close>

definition slice :: "'a list \<Rightarrow> nat \<Rightarrow> nat \<Rightarrow> 'a list" where
  "slice r a b = take (b - a) (drop a r)"

text \<open>\<open>r[i]\<close> for \<open>i \<ge> 0\<close>: IndexError beyond the end.\<close>

definition index :: "'a list \<Rightarrow> nat \<Rightarrow> error + 'a" where
  "index r i = (if i < length r then Inr (r ! i) else Inl IndexError)"

text \<open>\<open>int.from_bytes(bs, byteorder='little')\<close>; \<open>signed\<close> keeps its default False.\<close>

fun from_bytes :: "byte list \<Rightarrow> int" where
  "from_bytes [] = 0"
| "from_bytes (b # bs) = uint b + 256 * from_bytes bs"

text \<open>\<open>x.to_bytes(4, byteorder='little', signed=True)\<close>: OverflowError outside 32 bits.\<close>

fun le_bytes :: "nat \<Rightarrow> int \<Rightarrow> byte list" where
  "le_bytes 0 x = []"
| "le_bytes (Suc n) x = word_of_int x # le_bytes n (x div 256)"

definition to_bytes :: "int \<Rightarrow> error + byte list" where
  "to_bytes x =
     (if - (2 ^ 31) \<le> x \<and> x < 2 ^ 31 then Inr (le_bytes 4 x) else Inl OverflowError)"

text \<open>\<open>bs.decode('ascii')\<close>: a byte above 127 raises.\<close>

definition decode :: "byte list \<Rightarrow> error + string" where
  "decode bs =
     (if list_all (\<lambda>b. b < 128) bs then Inr (map (\<lambda>b. char_of (unat b)) bs)
      else Inl UnicodeDecodeError)"

text \<open>
  \<open>round(x)\<close> on a float: the nearest integer, a tie going to the even one.
  \<open>round(x, k)\<close>: the same at \<open>k\<close> decimals.
\<close>

definition py_round :: "real \<Rightarrow> int" where
  "py_round x =
     (let f = \<lfloor>x\<rfloor>; d = x - of_int f
      in if d < 1 / 2 then f else if 1 / 2 < d then f + 1
         else if even f then f else f + 1)"

definition py_round_to :: "real \<Rightarrow> nat \<Rightarrow> real" where
  "py_round_to x k = of_int (py_round (x * 10 ^ k)) / 10 ^ k"

subsection \<open>The serial port\<close>

datatype event = Write "byte list" | Read nat "byte list" | InWaiting nat

record port =
  arrivals :: "byte list list"
  rx :: "byte list"
  timeout :: int
  log :: "event list"

definition arrive :: "port \<Rightarrow> port" where
  "arrive p =
     (case arrivals p of [] \<Rightarrow> p
      | c # cs \<Rightarrow> p\<lparr>arrivals := cs, rx := rx p @ c\<rparr>)"

definition port_write :: "byte list \<Rightarrow> port \<Rightarrow> port" where
  "port_write cmd p = (let q = arrive p in q\<lparr>log := log q @ [Write cmd]\<rparr>)"

text \<open>
  \<open>port.read(n)\<close> returns when \<open>n\<close> bytes are there or the timeout has passed: at most
  \<open>n\<close> bytes, fewer when fewer have arrived.
\<close>

definition port_read :: "nat \<Rightarrow> port \<Rightarrow> byte list \<times> port" where
  "port_read n p =
     (let q = arrive p; r = take n (rx q)
      in (r, q\<lparr>rx := drop n (rx q), log := log q @ [Read n r]\<rparr>))"

definition port_inWaiting :: "port \<Rightarrow> nat \<times> port" where
  "port_inWaiting p =
     (let q = arrive p; k = length (rx q)
      in (k, q\<lparr>log := log q @ [InWaiting k]\<rparr>))"

subsection \<open>The controller object\<close>

text \<open>
  The attributes of \<open>Controller\<close>, the leading underscore of a name dropped and \<open>type\<close>
  called \<open>dev_type\<close>. \<open>_target_position_deg\<close> is assigned by the first move only, so it is
  an option and reading it unassigned is AttributeError. Every other attribute is assigned
  in \<open>__init__\<close> before anything reads it.
\<close>

record controller =
  name :: string
  verbose :: bool
  very_verbose :: bool
  port :: port
  model_number :: string
  dev_type :: int
  serial_number :: int
  firmware_v :: int
  hardware_v :: int
  EncCnt_per_deg :: real
  EncCnt_per_deg_per_s :: real
  EncCnt_per_deg_per_s2 :: real
  move_tol_deg :: real
  long_timeout_s :: int
  enable :: bool
  homed :: bool
  ch_id_bytes :: "byte list"
  position_counts :: int
  position_deg :: real
  max_velocity :: real
  acceleration :: real
  moving :: bool
  target_position_deg :: "real option"

type_synonym 'a result = "(error + 'a) \<times> controller"

text \<open>Sequencing: an exception ends the method with the state reached so far.\<close>

definition bind :: "'a result \<Rightarrow> ('a \<Rightarrow> controller \<Rightarrow> 'b result) \<Rightarrow> 'b result" where
  "bind r f = (case r of (Inl e, s) \<Rightarrow> (Inl e, s) | (Inr v, s) \<Rightarrow> f v s)"

definition bind_loop ::
  "'a result option \<Rightarrow> ('a \<Rightarrow> controller \<Rightarrow> 'b result option) \<Rightarrow> 'b result option" where
  "bind_loop r f =
     (case r of None \<Rightarrow> None
      | Some (Inl e, s) \<Rightarrow> Some (Inl e, s)
      | Some (Inr v, s) \<Rightarrow> f v s)"

text \<open>A response that is \<open>None\<close> cannot be sliced or indexed: TypeError.\<close>

definition subscriptable :: "byte list option \<Rightarrow> controller \<Rightarrow> (byte list) result" where
  "subscriptable response s =
     (case response of None \<Rightarrow> (Inl TypeError, s) | Some r \<Rightarrow> (Inr r, s))"

subsection \<open>\<open>_send\<close>\<close>

definition send :: "byte list \<Rightarrow> nat option \<Rightarrow> controller \<Rightarrow> (byte list option) result" where
  "send cmd response_bytes s =
     (let p1 = port_write cmd (port s);
          (response, p2) =
             (case response_bytes of
                Some n \<Rightarrow> (let (r, p) = port_read n p1 in (Some r, p))
              | None \<Rightarrow> (None, p1));
          (waiting, p3) = port_inWaiting p2;
          s' = s\<lparr>port := p3\<rparr>
      in if waiting = 0 then (Inr response, s') else (Inl AssertionError, s'))"

subsection \<open>\<open>get_position_deg\<close>\<close>

definition get_position_cmd :: "byte list" where
  "get_position_cmd = [0x11, 0x04, 0x00, 0x00, 0x50, 0x01]"

definition get_position_deg :: "controller \<Rightarrow> real result" where
  "get_position_deg s =
     bind (send get_position_cmd (Some 12) s) (\<lambda>response s.
     bind (subscriptable response s) (\<lambda>response s.
       let s = s\<lparr>ch_id_bytes := slice response 6 8\<rparr>;
           s = s\<lparr>position_counts := from_bytes (slice response 8 12)\<rparr>
       in if EncCnt_per_deg s = 0 then (Inl ZeroDivisionError, s)
          else
            let s = s\<lparr>position_deg := of_int (position_counts s) / EncCnt_per_deg s\<rparr>
            in (Inr (position_deg s), s)))"

subsection \<open>\<open>_finish_move\<close>\<close>

text \<open>The body of \<open>while True\<close>, one iteration for each unit of fuel.\<close>

fun finish_move_loop :: "nat \<Rightarrow> controller \<Rightarrow> unit result option" where
  "finish_move_loop 0 s = None"
| "finish_move_loop (Suc n) s =
     (let verbose0 = verbose s;
          s = s\<lparr>verbose := False\<rparr>
      in case get_position_deg s of
           (Inl e, s) \<Rightarrow> Some (Inl e, s)
         | (Inr _, s) \<Rightarrow>
             (let s = s\<lparr>verbose := verbose0\<rparr>
              in case target_position_deg s of
                   None \<Rightarrow> Some (Inl AttributeError, s)
                 | Some target \<Rightarrow>
                     (let tol = move_tol_deg s
                      in if target - tol \<le> position_deg s \<and> position_deg s \<le> target + tol
                         then Some (Inr (), s)
                         else finish_move_loop n s)))"

definition finish_move :: "nat \<Rightarrow> controller \<Rightarrow> unit result option" where
  "finish_move n s =
     (if \<not> moving s then Some (Inr (), s)
      else
        let timeout0 = timeout (port s);
            s = s\<lparr>port := (port s)\<lparr>timeout := long_timeout_s s\<rparr>\<rparr>;
            (_, p) = port_read 20 (port s);
            s = s\<lparr>port := p\<rparr>;
            s = s\<lparr>port := (port s)\<lparr>timeout := timeout0\<rparr>\<rparr>
        in bind_loop (finish_move_loop n s) (\<lambda>_ s.
             Some (Inr (), s\<lparr>moving := False\<rparr>)))"

subsection \<open>\<open>move_deg\<close>\<close>

definition move_absolute_cmd :: "byte list \<Rightarrow> byte list \<Rightarrow> byte list" where
  "move_absolute_cmd ch p = [0x53, 0x04, 0x06, 0x00] @ [0x50 OR 0x80] @ [0x01] @ ch @ p"

definition move_deg :: "nat \<Rightarrow> real \<Rightarrow> bool \<Rightarrow> bool \<Rightarrow> controller \<Rightarrow> unit result option" where
  "move_deg n deg relative block s =
     bind_loop (if moving s then finish_move n s else Some (Inr (), s)) (\<lambda>_ s.
       let deg = (if relative then position_deg s + deg else deg)
       in if \<not> (0 \<le> deg \<and> deg \<le> 359.99) then Some (Inl AssertionError, s)
          else
            let position_counts = py_round (deg * EncCnt_per_deg s)
            in case to_bytes position_counts of
                 Inl e \<Rightarrow> Some (Inl e, s)
               | Inr p \<Rightarrow>
                   bind_loop (Some (send (move_absolute_cmd (ch_id_bytes s) p) None s)) (\<lambda>_ s.
                     let s = s\<lparr>moving := True\<rparr>;
                         s = s\<lparr>target_position_deg := Some deg\<rparr>
                     in if block then finish_move n s else Some (Inr (), s)))"

subsection \<open>\<open>_get_info\<close>, \<open>_get_enable\<close>, \<open>_set_enable\<close>, \<open>_get_homed_status\<close>, \<open>identify\<close>\<close>

definition get_info_cmd :: "byte list" where
  "get_info_cmd = [0x05, 0x00, 0x00, 0x00, 0x50, 0x01]"

definition get_info :: "controller \<Rightarrow> (byte list) result" where
  "get_info s =
     bind (send get_info_cmd (Some 90) s) (\<lambda>response s.
     bind (subscriptable response s) (\<lambda>response s.
       case decode (slice response 10 18) of
         Inl e \<Rightarrow> (Inl e, s)
       | Inr m \<Rightarrow>
           (let s = s\<lparr>model_number := m\<rparr>;
                s = s\<lparr>dev_type := from_bytes (slice response 18 20)\<rparr>;
                s = s\<lparr>serial_number := from_bytes (slice response 6 10)\<rparr>;
                s = s\<lparr>firmware_v := from_bytes (slice response 20 24)\<rparr>;
                s = s\<lparr>hardware_v := from_bytes (slice response 84 86)\<rparr>
            in (Inr response, s))))"

definition get_enable :: "controller \<Rightarrow> bool result" where
  "get_enable s =
     bind (send [0x11, 0x02, 0x00, 0x00, 0x50, 0x01] (Some 6) s) (\<lambda>response s.
     bind (subscriptable response s) (\<lambda>response s.
       case index response 3 of
         Inl e \<Rightarrow> (Inl e, s)
       | Inr b \<Rightarrow>
           if \<not> (uint b = 1 \<or> uint b = 2) then (Inl AssertionError, s)
           else
             let s = (if uint b = 1 then s\<lparr>enable := True\<rparr> else s);
                 s = (if uint b = 2 then s\<lparr>enable := False\<rparr> else s)
             in (Inr (enable s), s)))"

definition set_enable :: "bool \<Rightarrow> controller \<Rightarrow> unit result" where
  "set_enable en s =
     (let cmd = (if en then [0x10, 0x02, 0x00, 0x01, 0x50, 0x01]
                 else [0x10, 0x02, 0x00, 0x02, 0x50, 0x01])
      in bind (send cmd None s) (\<lambda>_ s.
         bind (get_enable s) (\<lambda>e s.
           if e = en then (Inr (), s) else (Inl AssertionError, s))))"

definition get_homed_status :: "controller \<Rightarrow> bool result" where
  "get_homed_status s =
     bind (send [0x29, 0x04, 0x00, 0x00, 0x50, 0x01] (Some 12) s) (\<lambda>response s.
     bind (subscriptable response s) (\<lambda>response s.
       let status_bits = drop 8 response
       in case index status_bits 1 of
            Inl e \<Rightarrow> (Inl e, s)
          | Inr b \<Rightarrow>
              (let s = s\<lparr>homed := (b AND 4 \<noteq> 0)\<rparr>
               in (Inr (homed s), s))))"

definition identify :: "controller \<Rightarrow> unit result" where
  "identify s =
     bind (send [0x23, 0x02, 0x00, 0x00, 0x50, 0x01] None s) (\<lambda>_ s. (Inr (), s))"

subsection \<open>\<open>_home\<close>\<close>

fun home_loop :: "nat \<Rightarrow> controller \<Rightarrow> unit result option" where
  "home_loop 0 s = None"
| "home_loop (Suc n) s =
     (let verbose0 = verbose s;
          s = s\<lparr>verbose := False\<rparr>
      in case get_position_deg s of
           (Inl e, s) \<Rightarrow> Some (Inl e, s)
         | (Inr _, s) \<Rightarrow>
             (let s = s\<lparr>verbose := verbose0\<rparr>
              in if py_round_to (position_deg s) 2 = 0 then Some (Inr (), s)
                 else home_loop n s))"

definition home :: "nat \<Rightarrow> controller \<Rightarrow> unit result option" where
  "home n s =
     (let timeout0 = timeout (port s);
          s = s\<lparr>port := (port s)\<lparr>timeout := long_timeout_s s\<rparr>\<rparr>
      in bind_loop (Some (send [0x43, 0x04, 0x00, 0x00, 0x50, 0x01] (Some 6) s)) (\<lambda>_ s.
           let s = s\<lparr>port := (port s)\<lparr>timeout := timeout0\<rparr>\<rparr>
           in home_loop n s))"

subsection \<open>\<open>_get_velocity_parameters\<close>, \<open>_set_velocity_parameters\<close>\<close>

definition get_velocity_cmd :: "byte list" where
  "get_velocity_cmd = [0x14, 0x04, 0x00, 0x00, 0x50, 0x01]"

definition get_velocity_parameters :: "controller \<Rightarrow> (real \<times> real) result" where
  "get_velocity_parameters s =
     bind (send get_velocity_cmd (Some 20) s) (\<lambda>response s.
     bind (subscriptable response s) (\<lambda>response s.
       if EncCnt_per_deg_per_s s = 0 then (Inl ZeroDivisionError, s)
       else
         let s = s\<lparr>max_velocity :=
                   of_int (from_bytes (slice response 16 20)) / EncCnt_per_deg_per_s s\<rparr>
         in if EncCnt_per_deg_per_s2 s = 0 then (Inl ZeroDivisionError, s)
            else
              let s = s\<lparr>acceleration :=
                        of_int (from_bytes (slice response 12 16)) / EncCnt_per_deg_per_s2 s\<rparr>
              in (Inr (max_velocity s, acceleration s), s)))"

definition set_velocity_cmd :: "byte list \<Rightarrow> byte list \<Rightarrow> byte list \<Rightarrow> byte list \<Rightarrow> byte list" where
  "set_velocity_cmd ch m a v =
     [0x13, 0x04, 0x0E, 0x00] @ [0x50 OR 0x80] @ [0x01] @ ch @ m @ a @ v"

definition set_velocity_parameters :: "real \<Rightarrow> real \<Rightarrow> controller \<Rightarrow> unit result" where
  "set_velocity_parameters max_vel accel s =
     (if \<not> (0 \<le> max_vel \<and> max_vel \<le> 25) then (Inl AssertionError, s)
      else if \<not> (0 \<le> accel \<and> accel \<le> 25) then (Inl AssertionError, s)
      else
        let max_velocity_counts = py_round (max_vel * EncCnt_per_deg_per_s s);
            acceleration_counts = py_round (accel * EncCnt_per_deg_per_s2 s);
            min_velocity_counts = 0
        in case to_bytes min_velocity_counts of Inl e \<Rightarrow> (Inl e, s) | Inr m \<Rightarrow>
          (case to_bytes max_velocity_counts of Inl e \<Rightarrow> (Inl e, s) | Inr v \<Rightarrow>
          (case to_bytes acceleration_counts of Inl e \<Rightarrow> (Inl e, s) | Inr a \<Rightarrow>
             bind (send (set_velocity_cmd (ch_id_bytes s) m a v) None s) (\<lambda>_ s.
             bind (get_velocity_parameters s) (\<lambda>_ s.
               if py_round_to (max_velocity s) 1 \<noteq> max_vel then (Inl AssertionError, s)
               else if py_round_to (acceleration s) 1 \<noteq> accel then (Inl AssertionError, s)
               else (Inr (), s))))))"

subsection \<open>\<open>__init__\<close>\<close>

text \<open>
  The object before any attribute but \<open>name\<close>, \<open>verbose\<close>, \<open>very_verbose\<close> and \<open>port\<close> is
  assigned: the other fields hold placeholders.
\<close>

definition new_object :: "string \<Rightarrow> bool \<Rightarrow> bool \<Rightarrow> port \<Rightarrow> controller" where
  "new_object nm vb vvb p =
     \<lparr>name = nm, verbose = vb, very_verbose = vvb, port = p, model_number = [],
      dev_type = 0, serial_number = 0, firmware_v = 0, hardware_v = 0,
      EncCnt_per_deg = 0, EncCnt_per_deg_per_s = 0, EncCnt_per_deg_per_s2 = 0,
      move_tol_deg = 0, long_timeout_s = 0, enable = False, homed = False,
      ch_id_bytes = [], position_counts = 0, position_deg = 0, max_velocity = 0,
      acceleration = 0, moving = False, target_position_deg = None\<rparr>"

definition closed_port :: port where
  "closed_port = \<lparr>arrivals = [], rx = [], timeout = 0, log = []\<rparr>"

definition expected_model :: string where
  "expected_model = ''KDC101'' @ [CHR 0x00, CHR 0x00]"

text \<open>
  \<open>serial.Serial(port=which_port, baudrate=115200, timeout=1)\<close> is the argument \<open>opened\<close>:
  \<open>None\<close> when it raises SerialException, otherwise the port it returns.
\<close>

definition Controller_init ::
  "nat \<Rightarrow> port option \<Rightarrow> string \<Rightarrow> bool \<Rightarrow> bool \<Rightarrow> unit result option" where
  "Controller_init n opened nm vb vvb =
     (case opened of
        None \<Rightarrow> Some (Inl IOError, new_object nm vb vvb closed_port)
      | Some p \<Rightarrow>
          bind_loop (Some (get_info (new_object nm vb vvb p))) (\<lambda>_ s.
            if model_number s \<noteq> expected_model then Some (Inl AssertionError, s)
            else if firmware_v s \<noteq> 131592 then Some (Inl AssertionError, s)
            else
              let s = s\<lparr>EncCnt_per_deg := 1919.6418578623391\<rparr>;
                  s = s\<lparr>EncCnt_per_deg_per_s := 42941.66\<rparr>;
                  s = s\<lparr>EncCnt_per_deg_per_s2 := 14.66\<rparr>;
                  s = s\<lparr>move_tol_deg := 0.01\<rparr>;
                  s = s\<lparr>long_timeout_s := 40\<rparr>
              in bind_loop (Some (set_enable True s)) (\<lambda>_ s.
                 bind_loop (Some (get_homed_status s)) (\<lambda>_ s.
                 bind_loop (if \<not> homed s then home n s else Some (Inr (), s)) (\<lambda>_ s.
                 bind_loop (Some (get_position_deg s)) (\<lambda>_ s.
                 bind_loop (Some (set_velocity_parameters 25 25 s)) (\<lambda>_ s.
                   Some (Inr (), s\<lparr>moving := False\<rparr>))))))))"

section \<open>Vocabulary for the log of port operations\<close>

text \<open>
  The commands written to the port, in order, and the events that transmit a move-absolute
  frame (message id 0x0453, MGMSG_MOT_MOVE_ABSOLUTE).
\<close>

fun writes :: "event list \<Rightarrow> byte list list" where
  "writes [] = []"
| "writes (Write c # evs) = c # writes evs"
| "writes (_ # evs) = writes evs"


text \<open>
  The discipline of \<open>_send\<close>, read off a list of events. \<open>checked\<close>: every command
  written is followed, after the read of its reply if it has one, by the check of the input
  buffer, and a check that finds bytes is the last event; a read that is not part of an
  exchange (the one \<open>_finish_move\<close> makes) may stand between exchanges; no read returns
  more than was requested. \<open>passed\<close>: every check found the buffer empty.
  \<open>exchanges_checked s x\<close>: the run from \<open>s\<close> with outcome \<open>x\<close> (result and final
  object) only added events to the log, these events are \<open>checked\<close>, and either every
  check passed or the run raised AssertionError.
\<close>

fun checked :: "event list \<Rightarrow> bool" where
  "checked [] = True"
| "checked (Write c # Read n r # InWaiting k # evs) =
     (length r \<le> n \<and> (0 < k \<longrightarrow> evs = []) \<and> checked evs)"
| "checked (Write c # InWaiting k # evs) = ((0 < k \<longrightarrow> evs = []) \<and> checked evs)"
| "checked (Read n r # evs) = (length r \<le> n \<and> checked evs)"
| "checked (Write c # evs) = False"
| "checked (InWaiting k # evs) = False"

fun passed :: "event list \<Rightarrow> bool" where
  "passed [] = True"
| "passed (InWaiting k # evs) = (k = 0 \<and> passed evs)"
| "passed (_ # evs) = passed evs"

definition new_events :: "controller \<Rightarrow> controller \<Rightarrow> event list" where
  "new_events s s' = drop (length (log (port s))) (log (port s'))"

definition exchanges_checked :: "controller \<Rightarrow> 'a result \<Rightarrow> bool" where
  "exchanges_checked s x =
     (let evs = new_events s (snd x)
      in log (port (snd x)) = log (port s) @ evs \<and> checked evs \<and>
         (passed evs \<or> fst x = Inl AssertionError))"

definition exchanges_checked_loop :: "controller \<Rightarrow> 'a result option \<Rightarrow> bool" where
  "exchanges_checked_loop s r = (case r of None \<Rightarrow> True | Some x \<Rightarrow> exchanges_checked s x)"

text \<open>
  The constants \<open>__init__\<close> assigns: the calibration, the move tolerance and the long
  timeout.
\<close>

definition calibrated :: "controller \<Rightarrow> bool" where
  "calibrated s =
     (EncCnt_per_deg s = 1919.6418578623391 \<and> EncCnt_per_deg_per_s s = 42941.66 \<and>
      EncCnt_per_deg_per_s2 s = 14.66 \<and> move_tol_deg s = 0.01 \<and> long_timeout_s s = 40)"


section \<open>Example sessions\<close>

text \<open>
  A port whose device follows a script, the session \<open>__init__\<close> leaves on the calibrated
  device, and the replies of the device: a position report (MGMSG_MOT_GET_POSCOUNTER,
  channel 1) and the 20 bytes that follow a completed move.
\<close>

definition scripted_port :: "byte list list \<Rightarrow> port" where
  "scripted_port script = \<lparr>arrivals = script, rx = [], timeout = 1, log = []\<rparr>"

definition idle_session :: "byte list list \<Rightarrow> controller" where
  "idle_session script =
     \<lparr>name = ''KPRM1E'', verbose = True, very_verbose = False,
      port = scripted_port script, model_number = expected_model,
      dev_type = 16, serial_number = 27000001, firmware_v = 131592, hardware_v = 2,
      EncCnt_per_deg = 1919.6418578623391, EncCnt_per_deg_per_s = 42941.66,
      EncCnt_per_deg_per_s2 = 14.66, move_tol_deg = 0.01, long_timeout_s = 40,
      enable = True, homed = True, ch_id_bytes = [0x01, 0x00], position_counts = 0,
      position_deg = 0, max_velocity = 1073542 / 42941.66, acceleration = 366 / 14.66,
      moving = False,
      target_position_deg = None\<rparr>"


definition position_reply :: "int \<Rightarrow> byte list" where
  "position_reply counts = [0x12, 0x04, 0x06, 0x00, 0x81, 0x50, 0x01, 0x00] @ le_bytes 4 counts"


definition identity_reply :: "byte list \<Rightarrow> int \<Rightarrow> byte list" where
  "identity_reply model firmware =
     [0x06, 0x00, 0x54, 0x00, 0x81, 0x50] @ le_bytes 4 27000001 @ model @ le_bytes 2 16
       @ le_bytes 4 firmware @ replicate 60 0x00 @ le_bytes 2 2 @ le_bytes 2 0 @ le_bytes 2 1"

definition KDC101 :: "byte list" where
  "KDC101 = [0x4B, 0x44, 0x43, 0x31, 0x30, 0x31, 0x00, 0x00]"

definition enable_reply :: "byte \<Rightarrow> byte list" where
  "enable_reply state = [0x12, 0x02, 0x01, state, 0x01, 0x50]"

definition status_reply :: "byte list \<Rightarrow> byte list" where
  "status_reply status_bits = [0x2A, 0x04, 0x06, 0x00, 0x81, 0x50, 0x01, 0x00] @ status_bits"

definition velocity_reply :: "int \<Rightarrow> int \<Rightarrow> int \<Rightarrow> byte list" where
  "velocity_reply min_counts accel_counts max_counts =
     [0x15, 0x04, 0x0E, 0x00, 0x81, 0x50, 0x01, 0x00]
       @ le_bytes 4 min_counts @ le_bytes 4 accel_counts @ le_bytes 4 max_counts"

text \<open>
  What a calibrated, enabled and homed device at position 0 delivers during \<open>__init__\<close>,
  chunk by chunk: nothing while a command is written or the buffer is checked, the reply
  during the read.
\<close>

definition connect_script :: "byte list list" where
  "connect_script =
     [[], identity_reply KDC101 131592, [],
      [], [], [], enable_reply 0x01, [],
      [], status_reply [0x00, 0x04, 0x00, 0x00], [],
      [], position_reply 0, [],
      [], [], [], velocity_reply 0 366 1073542, []]"


section \<open>Basic facts\<close>

subsection \<open>The port and \<open>_send\<close>\<close>


lemma log_arrive: "log (arrive p) = log p"
  by (simp add: arrive_def split: list.splits)

lemma timeout_arrive: "timeout (arrive p) = timeout p"
  by (simp add: arrive_def split: list.splits)

lemma log_port_write: "log (port_write cmd p) = log p @ [Write cmd]"
  by (simp add: port_write_def Let_def log_arrive)

lemma port_read_log:
  "port_read n p = (r, q) \<Longrightarrow> log q = log p @ [Read n r] \<and> length r \<le> n \<and> timeout q = timeout p"
  by (auto simp: port_read_def Let_def log_arrive timeout_arrive)

lemma port_inWaiting_log:
  "port_inWaiting p = (k, q) \<Longrightarrow>
   log q = log p @ [InWaiting k] \<and> length (rx q) = k \<and> timeout q = timeout p"
  by (auto simp: port_inWaiting_def Let_def log_arrive timeout_arrive)


lemma send_log:
  "send cmd rb s = (r, s') \<Longrightarrow>
   \<exists>evs. log (port s') = log (port s) @ Write cmd # evs \<and> writes evs = []"
  by (auto simp: send_def Let_def log_port_write port_read_def port_inWaiting_def log_arrive
      split: prod.splits option.splits if_splits)







lemma get_position_deg_error:
  "get_position_deg s = (Inl e, s') \<Longrightarrow> e = AssertionError \<or> e = ZeroDivisionError"
  unfolding get_position_deg_def
  by (auto simp: bind_def subscriptable_def Let_def send_def
      split: sum.splits option.splits if_splits prod.splits)

subsection \<open>\<open>_finish_move\<close>: the loop\<close>

lemma finish_move_loop_Suc:
  "finish_move_loop (Suc n) s =
     (case get_position_deg (s\<lparr>verbose := False\<rparr>) of
        (Inl e, s1) \<Rightarrow> Some (Inl e, s1)
      | (Inr v, s1) \<Rightarrow>
          (case target_position_deg s1 of
             None \<Rightarrow> Some (Inl AttributeError, s1\<lparr>verbose := verbose s\<rparr>)
           | Some t \<Rightarrow>
               if t - move_tol_deg s1 \<le> position_deg s1 \<and> position_deg s1 \<le> t + move_tol_deg s1
               then Some (Inr (), s1\<lparr>verbose := verbose s\<rparr>)
               else finish_move_loop n (s1\<lparr>verbose := verbose s\<rparr>)))"
  by (simp add: Let_def split: prod.splits sum.splits option.splits)

declare finish_move_loop.simps(2) [simp del]





lemma finish_move_loop_mono:
  "finish_move_loop n s = Some x \<Longrightarrow> finish_move_loop (n + k) s = Some x"
proof (induction n arbitrary: s)
  case 0
  then show ?case by simp
next
  case (Suc n)
  obtain r1 s1 where g: "get_position_deg (s\<lparr>verbose := False\<rparr>) = (r1, s1)"
    by (cases "get_position_deg (s\<lparr>verbose := False\<rparr>)")
  show ?case
    using Suc.prems Suc.IH [of "s1\<lparr>verbose := verbose s\<rparr>"] g
    by (auto simp: finish_move_loop_Suc split: sum.splits option.splits if_splits)
qed

subsection \<open>\<open>_finish_move\<close> and \<open>move_deg\<close>\<close>




lemma finish_move_moving:
  assumes "moving s"
  shows "finish_move n s =
     bind_loop (finish_move_loop n
         (s\<lparr>port := (snd (port_read 20 ((port s)\<lparr>timeout := long_timeout_s s\<rparr>)))
                 \<lparr>timeout := timeout (port s)\<rparr>\<rparr>))
       (\<lambda>_ s. Some (Inr (), s\<lparr>moving := False\<rparr>))"
  using assms by (simp add: finish_move_def Let_def split: prod.splits)

lemma finish_move_mono:
  assumes "finish_move n s = Some x"
  shows "finish_move (n + k) s = Some x"
proof (cases "moving s")
  case False
  with assms show ?thesis by (simp add: finish_move_def)
next
  case True
  let ?s1 = "s\<lparr>port := (snd (port_read 20 ((port s)\<lparr>timeout := long_timeout_s s\<rparr>)))
                 \<lparr>timeout := timeout (port s)\<rparr>\<rparr>"
  from assms obtain y where y: "finish_move_loop n ?s1 = Some y"
    unfolding finish_move_moving [OF True] by (cases "finish_move_loop n ?s1") (simp_all add: bind_loop_def)
  from finish_move_loop_mono [OF y, of k] have "finish_move_loop (n + k) ?s1 = Some y" .
  with assms y show ?thesis
    unfolding finish_move_moving [OF True] by (simp add: bind_loop_def)
qed






subsection \<open>Devices that settle late or never\<close>










subsection \<open>Rounding and the unit conversion\<close>

lemma floor_half: "of_int \<lfloor>x\<rfloor> \<le> (x::real) \<and> x < of_int \<lfloor>x\<rfloor> + 1"
  by linarith

lemma py_round_close: "\<bar>of_int (py_round x) - x\<bar> \<le> 1 / 2"
proof -
  have "of_int \<lfloor>x\<rfloor> \<le> x" "x < of_int \<lfloor>x\<rfloor> + 1" by linarith+
  then show ?thesis
    by (auto simp: py_round_def Let_def abs_le_iff)
qed




lemma round_trip_bound:
  assumes "0 < (E::real)"
  shows "\<bar>of_int (py_round (d * E)) / E - d\<bar> \<le> 1 / (2 * E)"
proof -
  have "of_int (py_round (d * E)) / E - d = (of_int (py_round (d * E)) - d * E) / E"
    using assms by (simp add: field_simps)
  then have "\<bar>of_int (py_round (d * E)) / E - d\<bar> = \<bar>of_int (py_round (d * E)) - d * E\<bar> / E"
    using assms by simp
  also have "\<dots> \<le> (1 / 2) / E"
    using assms py_round_close [of "d * E"] by (intro divide_right_mono) simp_all
  finally show ?thesis by simp
qed

subsection \<open>The byte codec\<close>

lemma from_bytes_nonneg: "0 \<le> from_bytes bs"
  by (induction bs) simp_all

lemma from_bytes_le_bytes: "from_bytes (le_bytes n x) = x mod 256 ^ n"
proof (induction n arbitrary: x)
  case 0
  then show ?case by simp
next
  case (Suc n)
  have "from_bytes (le_bytes (Suc n) x) = x mod 256 + 256 * ((x div 256) mod 256 ^ n)"
    by (simp add: Suc.IH uint_word_of_int)
  also have "\<dots> = x mod (256 * 256 ^ n)"
    by (simp add: zmod_zmult2_eq)
  finally show ?case by simp
qed



lemma unsigned_decode_le_bytes:
  assumes "0 \<le> x" and "x < 2 ^ 32"
  shows "from_bytes (le_bytes 4 x) = x"
  using assms by (simp add: from_bytes_le_bytes)

subsection \<open>The move-absolute frame\<close>




subsection \<open>\<open>__init__\<close> on the example device\<close>

text \<open>
  On the scripted device \<open>__init__\<close> succeeds, and the object it leaves is \<open>idle_session\<close>
  (whose log starts empty).
\<close>

lemma connect_example:
  "map_option (\<lambda>x. (fst x, (snd x)\<lparr>port := (port (snd x))\<lparr>log := []\<rparr>\<rparr>))
     (Controller_init 0 (Some (scripted_port connect_script)) ''KPRM1E'' True False)
   = Some (Inr (), idle_session [])"
  by code_simp


subsection \<open>\<open>_get_info\<close>\<close>

lemma send_response:
  "send cmd (Some n) s = (Inr response, s') \<Longrightarrow>
   response = Some (fst (port_read n (port_write cmd (port s))))"
  by (auto simp: send_def Let_def split: prod.splits if_splits)

lemma get_info_log:
  assumes "get_info s = (r, s')"
  shows "\<exists>evs. log (port s') = log (port s) @ Write get_info_cmd # evs \<and> writes evs = []"
proof (cases "send get_info_cmd (Some 90) s")
  case (Pair r1 s1)
  from send_log [OF Pair] obtain evs where
    l: "log (port s1) = log (port s) @ Write get_info_cmd # evs" "writes evs = []" by blast
  have "port s' = port s1"
    using assms Pair unfolding get_info_def
    by (auto simp: bind_def subscriptable_def Let_def split: sum.splits option.splits if_splits)
  with l show ?thesis by auto
qed

lemma get_info_error:
  "get_info s = (Inl e, s') \<Longrightarrow> e = AssertionError \<or> e = UnicodeDecodeError"
  unfolding get_info_def
  by (auto simp: bind_def subscriptable_def Let_def send_def decode_def
      split: sum.splits option.splits if_splits prod.splits)

lemma get_info_ok:
  assumes "get_info s = (Inr v, s')"
  shows "decode (slice (fst (port_read 90 (port_write get_info_cmd (port s)))) 10 18)
           = Inr (model_number s') \<and>
         firmware_v s' = from_bytes (slice (fst (port_read 90 (port_write get_info_cmd (port s)))) 20 24)"
proof (cases "send get_info_cmd (Some 90) s")
  case (Pair r1 s1)
  with assms obtain rsp0 where r1: "r1 = Inr rsp0"
    unfolding get_info_def by (cases r1) (auto simp: bind_def)
  from send_response [OF Pair [unfolded r1]]
  have rsp: "rsp0 = Some (fst (port_read 90 (port_write get_info_cmd (port s))))" .
  show ?thesis
    using assms Pair unfolding get_info_def r1 rsp
    by (auto simp: bind_def subscriptable_def Let_def split: sum.splits)
qed

subsection \<open>The velocity parameters\<close>






subsection \<open>Every command is followed by the buffer check\<close>

lemma passed_append: "passed (a @ b) = (passed a \<and> passed b)"
  by (induction a rule: passed.induct) auto

lemma checked_append: "checked a \<Longrightarrow> passed a \<Longrightarrow> checked b \<Longrightarrow> checked (a @ b)"
  by (induction a rule: checked.induct) auto

lemma exchanges_checkedI:
  assumes "log (port s') = log (port s) @ evs" and "checked evs"
    and "passed evs \<or> r = Inl AssertionError"
  shows "exchanges_checked s (r, s')"
  using assms by (simp add: exchanges_checked_def new_events_def)

lemma exchanges_checkedE:
  assumes "exchanges_checked s (r, s')"
  obtains evs where "log (port s') = log (port s) @ evs" and "checked evs"
    and "passed evs \<or> r = Inl AssertionError"
  using assms by (auto simp: exchanges_checked_def Let_def)

lemma exchanges_checked_same_log:
  "log (port (snd x)) = log (port s) \<Longrightarrow> exchanges_checked s x"
  by (simp add: exchanges_checked_def new_events_def)

lemma exchanges_checked_start:
  "log (port s0) = log (port s) \<Longrightarrow> exchanges_checked s0 x = exchanges_checked s x"
  by (simp add: exchanges_checked_def new_events_def)

lemma exchanges_checked_end:
  "log (port s1) = log (port s') \<Longrightarrow> (r = Inl AssertionError \<longrightarrow> r1 = Inl AssertionError) \<Longrightarrow>
   exchanges_checked s (r, s') \<Longrightarrow> exchanges_checked s (r1, s1)"
  by (auto simp: exchanges_checked_def new_events_def Let_def)

lemma exchanges_checked_trans:
  assumes "exchanges_checked s (Inr v, s1)" and "exchanges_checked s1 x"
  shows "exchanges_checked s x"
proof -
  obtain r s' where x: "x = (r, s')" by (cases x)
  from assms(1) obtain evs1 where
    1: "log (port s1) = log (port s) @ evs1" "checked evs1" "passed evs1"
    by (auto elim: exchanges_checkedE)
  from assms(2) [unfolded x] obtain evs2 where
    2: "log (port s') = log (port s1) @ evs2" "checked evs2"
      "passed evs2 \<or> r = Inl AssertionError"
    by (auto elim: exchanges_checkedE)
  from 1 2 have "log (port s') = log (port s) @ (evs1 @ evs2)"
    "checked (evs1 @ evs2)" "passed (evs1 @ evs2) \<or> r = Inl AssertionError"
    by (auto simp: passed_append checked_append)
  then show ?thesis unfolding x by (rule exchanges_checkedI)
qed

lemma exchanges_checked_bind:
  assumes "exchanges_checked s m"
    and "\<And>v s1. m = (Inr v, s1) \<Longrightarrow> exchanges_checked s1 (f v s1)"
  shows "exchanges_checked s (bind m f)"
proof -
  obtain r s1 where m: "m = (r, s1)" by (cases m)
  show ?thesis
  proof (cases r)
    case (Inl e)
    with assms(1) m show ?thesis
      by (auto simp: bind_def exchanges_checked_def)
  next
    case (Inr v)
    with assms m have "exchanges_checked s (Inr v, s1)" "exchanges_checked s1 (f v s1)"
      by simp_all
    then have "exchanges_checked s (f v s1)" by (rule exchanges_checked_trans)
    with m Inr show ?thesis by (simp add: bind_def)
  qed
qed

lemma exchanges_checked_bind_loop:
  assumes "exchanges_checked_loop s m"
    and "\<And>v s1. m = Some (Inr v, s1) \<Longrightarrow> exchanges_checked_loop s1 (f v s1)"
  shows "exchanges_checked_loop s (bind_loop m f)"
proof (cases m)
  case None
  then show ?thesis by (simp add: bind_loop_def exchanges_checked_loop_def)
next
  case (Some x)
  obtain r s1 where x: "x = (r, s1)" by (cases x)
  show ?thesis
  proof (cases r)
    case (Inl e)
    with assms(1) Some x show ?thesis
      by (auto simp: bind_loop_def exchanges_checked_loop_def exchanges_checked_def)
  next
    case (Inr v)
    with assms Some x have 1: "exchanges_checked s (Inr v, s1)"
      and 2: "exchanges_checked_loop s1 (f v s1)"
      by (simp_all add: exchanges_checked_loop_def)
    show ?thesis
    proof (cases "f v s1")
      case None
      with Some x Inr show ?thesis by (simp add: bind_loop_def exchanges_checked_loop_def)
    next
      case (Some y)
      with 2 have "exchanges_checked s1 y" by (simp add: exchanges_checked_loop_def)
      with 1 have "exchanges_checked s y" by (rule exchanges_checked_trans)
      with \<open>m = Some x\<close> x Inr Some show ?thesis
        by (simp add: bind_loop_def exchanges_checked_loop_def)
    qed
  qed
qed

lemma exchanges_checked_loop_Some:
  "exchanges_checked s x \<Longrightarrow> exchanges_checked_loop s (Some x)"
  by (simp add: exchanges_checked_loop_def)

lemma exchanges_checked_send: "exchanges_checked s (send cmd rb s)"
proof (cases rb)
  case None
  obtain k q where w: "port_inWaiting (port_write cmd (port s)) = (k, q)"
    by (cases "port_inWaiting (port_write cmd (port s))")
  from port_inWaiting_log [OF w]
  have l: "log q = log (port s) @ [Write cmd, InWaiting k]" by (simp add: log_port_write)
  have "exchanges_checked s (if k = 0 then Inr None else Inl AssertionError, s\<lparr>port := q\<rparr>)"
    using l by (intro exchanges_checkedI [where evs = "[Write cmd, InWaiting k]"]) auto
  with None w show ?thesis by (auto simp: send_def Let_def split: if_splits)
next
  case (Some n)
  obtain r p where rd: "port_read n (port_write cmd (port s)) = (r, p)"
    by (cases "port_read n (port_write cmd (port s))")
  obtain k q where w: "port_inWaiting p = (k, q)" by (cases "port_inWaiting p")
  from port_read_log [OF rd] port_inWaiting_log [OF w]
  have l: "log q = log (port s) @ [Write cmd, Read n r, InWaiting k]" "length r \<le> n"
    by (simp_all add: log_port_write)
  have "exchanges_checked s (if k = 0 then Inr (Some r) else Inl AssertionError, s\<lparr>port := q\<rparr>)"
    using l by (intro exchanges_checkedI [where evs = "[Write cmd, Read n r, InWaiting k]"]) auto
  with Some rd w show ?thesis by (auto simp: send_def Let_def split: if_splits)
qed

lemma exchanges_checked_get_position_deg: "exchanges_checked s (get_position_deg s)"
  unfolding get_position_deg_def
  by (intro exchanges_checked_bind exchanges_checked_send exchanges_checked_same_log)
     (simp_all add: subscriptable_def Let_def split: option.splits)

lemma exchanges_checked_get_info: "exchanges_checked s (get_info s)"
  unfolding get_info_def
  by (intro exchanges_checked_bind exchanges_checked_send exchanges_checked_same_log)
     (simp_all add: subscriptable_def Let_def split: option.splits sum.splits)

lemma exchanges_checked_get_enable: "exchanges_checked s (get_enable s)"
  unfolding get_enable_def
  by (intro exchanges_checked_bind exchanges_checked_send exchanges_checked_same_log)
     (simp_all add: subscriptable_def Let_def split: option.splits sum.splits)

lemma exchanges_checked_set_enable: "exchanges_checked s (set_enable en s)"
  unfolding set_enable_def Let_def
  by (intro exchanges_checked_bind exchanges_checked_send exchanges_checked_get_enable
      exchanges_checked_same_log) simp

lemma exchanges_checked_get_homed_status: "exchanges_checked s (get_homed_status s)"
  unfolding get_homed_status_def
  by (intro exchanges_checked_bind exchanges_checked_send exchanges_checked_same_log)
     (simp_all add: subscriptable_def Let_def split: option.splits sum.splits)

lemma exchanges_checked_identify: "exchanges_checked s (identify s)"
  unfolding identify_def
  by (intro exchanges_checked_bind exchanges_checked_send exchanges_checked_same_log) simp

lemma exchanges_checked_get_velocity_parameters:
  "exchanges_checked s (get_velocity_parameters s)"
  unfolding get_velocity_parameters_def
  by (intro exchanges_checked_bind exchanges_checked_send exchanges_checked_same_log)
     (simp_all add: subscriptable_def Let_def split: option.splits sum.splits)

lemma exchanges_checked_set_velocity_parameters:
  "exchanges_checked s (set_velocity_parameters max_vel accel s)"
proof -
  have "exchanges_checked s
     (bind (send frame None s) (\<lambda>_ s.
      bind (get_velocity_parameters s) (\<lambda>_ s.
        if py_round_to (max_velocity s) 1 \<noteq> max_vel then (Inl AssertionError, s)
        else if py_round_to (acceleration s) 1 \<noteq> accel then (Inl AssertionError, s)
        else (Inr (), s))))" for frame
    by (intro exchanges_checked_bind exchanges_checked_send
        exchanges_checked_get_velocity_parameters exchanges_checked_same_log) simp
  then show ?thesis
    unfolding set_velocity_parameters_def Let_def
    by (auto simp: exchanges_checked_same_log split: sum.splits)
qed

lemma exchanges_checked_finish_move_loop:
  "exchanges_checked_loop s (finish_move_loop n s)"
proof (induction n arbitrary: s)
  case 0
  then show ?case by (simp add: exchanges_checked_loop_def)
next
  case (Suc n)
  let ?s0 = "s\<lparr>verbose := False\<rparr>"
  obtain r1 s1 where g: "get_position_deg ?s0 = (r1, s1)" by (cases "get_position_deg ?s0")
  have "exchanges_checked ?s0 (r1, s1)"
    using exchanges_checked_get_position_deg [of ?s0] by (simp add: g)
  then have 1: "exchanges_checked s (r1, s1)"
    by (simp add: exchanges_checked_start [of ?s0 s])
  let ?s2 = "s1\<lparr>verbose := verbose s\<rparr>"
  show ?case
  proof (cases r1)
    case (Inl e)
    with 1 have "exchanges_checked s (Inl e :: error + unit, s1)"
      by (auto intro: exchanges_checked_end)
    with g Inl show ?thesis
      by (simp add: finish_move_loop_Suc exchanges_checked_loop_def)
  next
    case (Inr v)
    with 1 have 2: "exchanges_checked s (Inr w, ?s2)" for w :: unit
      by (auto intro: exchanges_checked_end)
    then have 3: "exchanges_checked s (r, ?s2)" for r :: "error + unit"
      by (auto intro: exchanges_checked_end)
    have "exchanges_checked_loop s (finish_move_loop n ?s2)"
    proof (cases "finish_move_loop n ?s2")
      case None
      then show ?thesis by (simp add: exchanges_checked_loop_def)
    next
      case (Some y)
      with Suc.IH [of ?s2] have "exchanges_checked ?s2 y"
        by (simp add: exchanges_checked_loop_def)
      with 2 have "exchanges_checked s y" by (rule exchanges_checked_trans)
      with Some show ?thesis by (simp add: exchanges_checked_loop_def)
    qed
    with g Inr 3 show ?thesis
      by (auto simp: finish_move_loop_Suc exchanges_checked_loop_def split: option.splits)
  qed
qed

lemma exchanges_checked_finish_move: "exchanges_checked_loop s (finish_move n s)"
proof (cases "moving s")
  case False
  then show ?thesis
    by (simp add: finish_move_def exchanges_checked_loop_def exchanges_checked_same_log)
next
  case True
  obtain bs q where rd: "port_read 20 ((port s)\<lparr>timeout := long_timeout_s s\<rparr>) = (bs, q)"
    by (cases "port_read 20 ((port s)\<lparr>timeout := long_timeout_s s\<rparr>)")
  let ?s1 = "s\<lparr>port := q\<lparr>timeout := timeout (port s)\<rparr>\<rparr>"
  from port_read_log [OF rd]
  have l: "log (port ?s1) = log (port s) @ [Read 20 bs]" "length bs \<le> 20" by simp_all
  have 1: "exchanges_checked s (Inr (), ?s1)"
    using l by (intro exchanges_checkedI [where evs = "[Read 20 bs]"]) simp_all
  have fm: "finish_move n s =
      bind_loop (finish_move_loop n ?s1) (\<lambda>_ s. Some (Inr (), s\<lparr>moving := False\<rparr>))"
    using rd by (simp add: finish_move_moving [OF True])
  have "exchanges_checked_loop ?s1 (finish_move n s)"
    unfolding fm
    by (intro exchanges_checked_bind_loop exchanges_checked_finish_move_loop)
       (simp add: exchanges_checked_loop_def exchanges_checked_same_log)
  then show ?thesis
  proof (cases "finish_move n s")
    case None
    then show ?thesis by (simp add: exchanges_checked_loop_def)
  next
    case (Some y)
    assume "exchanges_checked_loop ?s1 (finish_move n s)"
    with Some have "exchanges_checked ?s1 y" by (simp add: exchanges_checked_loop_def)
    with 1 have "exchanges_checked s y" by (rule exchanges_checked_trans)
    with Some show ?thesis by (simp add: exchanges_checked_loop_def)
  qed
qed

lemma exchanges_checked_loop_start:
  "log (port s0) = log (port s) \<Longrightarrow> exchanges_checked_loop s0 x = exchanges_checked_loop s x"
  by (cases x) (simp_all add: exchanges_checked_loop_def exchanges_checked_start [of s0 s])

lemma exchanges_checked_loop_same_log:
  "log (port s') = log (port s) \<Longrightarrow> exchanges_checked_loop s (Some (r, s'))"
  by (simp add: exchanges_checked_loop_def exchanges_checked_same_log)

lemma exchanges_checked_move_deg:
  "exchanges_checked_loop s (move_deg n deg relative block s)"
  unfolding move_deg_def
proof (rule exchanges_checked_bind_loop)
  show "exchanges_checked_loop s (if moving s then finish_move n s else Some (Inr (), s))"
    by (simp add: exchanges_checked_finish_move exchanges_checked_loop_same_log)
next
  fix v :: unit and s1 :: controller
  define tgt where "tgt = (if relative then position_deg s1 + deg else deg)"
  have inner: "exchanges_checked_loop s1
      (bind_loop (Some (send frame None s1)) (\<lambda>_ s.
         let s = s\<lparr>moving := True\<rparr>; s = s\<lparr>target_position_deg := Some tgt\<rparr>
         in if block then finish_move n s else Some (Inr (), s)))" for frame
  proof (rule exchanges_checked_bind_loop)
    show "exchanges_checked_loop s1 (Some (send frame None s1))"
      by (rule exchanges_checked_loop_Some) (rule exchanges_checked_send)
  next
    fix w :: "byte list option" and s2 :: controller
    let ?s3 = "s2\<lparr>moving := True, target_position_deg := Some tgt\<rparr>"
    have l: "log (port ?s3) = log (port s2)" by simp
    have "exchanges_checked_loop ?s3 (finish_move n ?s3)" by (rule exchanges_checked_finish_move)
    then have 1: "exchanges_checked_loop s2 (finish_move n ?s3)"
      by (simp only: exchanges_checked_loop_start [OF l])
    have 2: "exchanges_checked_loop s2 (Some (Inr (), ?s3))"
      using l by (rule exchanges_checked_loop_same_log)
    have "exchanges_checked_loop s2 (if block then finish_move n ?s3 else Some (Inr (), ?s3))"
      using 1 2 by (cases block) simp_all
    then show "exchanges_checked_loop s2
        (let s = s2\<lparr>moving := True\<rparr>; s = s\<lparr>target_position_deg := Some tgt\<rparr>
         in if block then finish_move n s else Some (Inr (), s))"
      by (simp only: Let_def controller.update_convs)
  qed
  have "exchanges_checked_loop s1
     (if \<not> (0 \<le> tgt \<and> tgt \<le> 359.99) then Some (Inl AssertionError, s1)
      else case to_bytes (py_round (tgt * EncCnt_per_deg s1)) of Inl e \<Rightarrow> Some (Inl e, s1)
           | Inr p \<Rightarrow>
               bind_loop (Some (send (move_absolute_cmd (ch_id_bytes s1) p) None s1))
                (\<lambda>_ s. let s = s\<lparr>moving := True\<rparr>;
                           s = s\<lparr>target_position_deg := Some tgt\<rparr>
                       in if block then finish_move n s else Some (Inr (), s)))"
  proof (cases "0 \<le> tgt \<and> tgt \<le> 359.99")
    case False
    then show ?thesis by (simp add: exchanges_checked_loop_same_log)
  next
    case True
    show ?thesis
    proof (cases "to_bytes (py_round (tgt * EncCnt_per_deg s1))")
      case (Inl e)
      with True show ?thesis by (simp add: exchanges_checked_loop_same_log)
    next
      case (Inr p)
      with True inner [of "move_absolute_cmd (ch_id_bytes s1) p"] show ?thesis by simp
    qed
  qed
  then show "exchanges_checked_loop s1
     (let deg = if relative then position_deg s1 + deg else deg
      in if \<not> (0 \<le> deg \<and> deg \<le> 359.99) then Some (Inl AssertionError, s1)
         else let position_counts = py_round (deg * EncCnt_per_deg s1)
              in case to_bytes position_counts of Inl e \<Rightarrow> Some (Inl e, s1)
                 | Inr p \<Rightarrow>
                     bind_loop (Some (send (move_absolute_cmd (ch_id_bytes s1) p) None s1))
                      (\<lambda>_ s. let s = s\<lparr>moving := True\<rparr>;
                                 s = s\<lparr>target_position_deg := Some deg\<rparr>
                             in if block then finish_move n s else Some (Inr (), s)))"
    unfolding tgt_def Let_def .
qed

lemma home_loop_Suc:
  "home_loop (Suc n) s =
     (case get_position_deg (s\<lparr>verbose := False\<rparr>) of
        (Inl e, s1) \<Rightarrow> Some (Inl e, s1)
      | (Inr v, s1) \<Rightarrow>
          if py_round_to (position_deg s1) 2 = 0 then Some (Inr (), s1\<lparr>verbose := verbose s\<rparr>)
          else home_loop n (s1\<lparr>verbose := verbose s\<rparr>))"
  by (simp add: Let_def split: prod.splits sum.splits)

declare home_loop.simps(2) [simp del]

lemma exchanges_checked_home_loop: "exchanges_checked_loop s (home_loop n s)"
proof (induction n arbitrary: s)
  case 0
  then show ?case by (simp add: exchanges_checked_loop_def)
next
  case (Suc n)
  let ?s0 = "s\<lparr>verbose := False\<rparr>"
  obtain r1 s1 where g: "get_position_deg ?s0 = (r1, s1)" by (cases "get_position_deg ?s0")
  have "exchanges_checked ?s0 (r1, s1)"
    using exchanges_checked_get_position_deg [of ?s0] by (simp add: g)
  then have 1: "exchanges_checked s (r1, s1)"
    by (simp add: exchanges_checked_start [of ?s0 s])
  let ?s2 = "s1\<lparr>verbose := verbose s\<rparr>"
  show ?case
  proof (cases r1)
    case (Inl e)
    with 1 have "exchanges_checked s (Inl e :: error + unit, s1)"
      by (auto intro: exchanges_checked_end)
    with g Inl show ?thesis
      by (simp add: home_loop_Suc exchanges_checked_loop_def)
  next
    case (Inr v)
    with 1 have 2: "exchanges_checked s (Inr (), ?s2)"
      by (auto intro: exchanges_checked_end)
    have "exchanges_checked_loop s (home_loop n ?s2)"
    proof (cases "home_loop n ?s2")
      case None
      then show ?thesis by (simp add: exchanges_checked_loop_def)
    next
      case (Some y)
      with Suc.IH [of ?s2] have "exchanges_checked ?s2 y"
        by (simp add: exchanges_checked_loop_def)
      with 2 have "exchanges_checked s y" by (rule exchanges_checked_trans)
      with Some show ?thesis by (simp add: exchanges_checked_loop_def)
    qed
    with g Inr 2 show ?thesis
      by (auto simp: home_loop_Suc exchanges_checked_loop_def)
  qed
qed

lemma exchanges_checked_home: "exchanges_checked_loop s (home n s)"
proof -
  let ?s0 = "s\<lparr>port := (port s)\<lparr>timeout := long_timeout_s s\<rparr>\<rparr>"
  have l0: "log (port ?s0) = log (port s)" by simp
  have "exchanges_checked_loop ?s0
     (bind_loop (Some (send [0x43, 0x04, 0x00, 0x00, 0x50, 0x01] (Some 6) ?s0)) (\<lambda>_ s'.
        let s' = s'\<lparr>port := (port s')\<lparr>timeout := timeout (port s)\<rparr>\<rparr> in home_loop n s'))"
  proof (rule exchanges_checked_bind_loop)
    show "exchanges_checked_loop ?s0 (Some (send [0x43, 0x04, 0x00, 0x00, 0x50, 0x01] (Some 6) ?s0))"
      by (rule exchanges_checked_loop_Some) (rule exchanges_checked_send)
  next
    fix w :: "byte list option" and s1 :: controller
    let ?s2 = "s1\<lparr>port := (port s1)\<lparr>timeout := timeout (port s)\<rparr>\<rparr>"
    have l: "log (port ?s2) = log (port s1)" by simp
    have "exchanges_checked_loop ?s2 (home_loop n ?s2)" by (rule exchanges_checked_home_loop)
    then have "exchanges_checked_loop s1 (home_loop n ?s2)"
      by (simp only: exchanges_checked_loop_start [OF l])
    then show "exchanges_checked_loop s1
       (let s' = s1\<lparr>port := (port s1)\<lparr>timeout := timeout (port s)\<rparr>\<rparr> in home_loop n s')"
      by (simp only: Let_def)
  qed
  then have "exchanges_checked_loop ?s0 (home n s)"
    by (simp only: home_def Let_def)
  then show ?thesis by (simp only: exchanges_checked_loop_start [OF l0])
qed

lemma exchanges_checked_Controller_init:
  "exchanges_checked_loop (new_object nm vb vvb p) (Controller_init n (Some p) nm vb vvb)"
proof -
  have tail: "exchanges_checked_loop s0
      (bind_loop (Some (set_enable True s0)) (\<lambda>_ s.
       bind_loop (Some (get_homed_status s)) (\<lambda>_ s.
       bind_loop (if \<not> homed s then home n s else Some (Inr (), s)) (\<lambda>_ s.
       bind_loop (Some (get_position_deg s)) (\<lambda>_ s.
       bind_loop (Some (set_velocity_parameters 25 25 s)) (\<lambda>_ s.
         Some (Inr (), s\<lparr>moving := False\<rparr>)))))))" for s0
    by (intro exchanges_checked_bind_loop exchanges_checked_loop_Some
        exchanges_checked_set_enable exchanges_checked_get_homed_status
        exchanges_checked_get_position_deg exchanges_checked_set_velocity_parameters)
       (simp_all add: exchanges_checked_home exchanges_checked_loop_same_log
          exchanges_checked_same_log)
  have "exchanges_checked_loop (new_object nm vb vvb p)
     (bind_loop (Some (get_info (new_object nm vb vvb p))) (\<lambda>_ s.
        if model_number s \<noteq> expected_model then Some (Inl AssertionError, s)
        else if firmware_v s \<noteq> 131592 then Some (Inl AssertionError, s)
        else
          bind_loop (Some (set_enable True
             (s\<lparr>EncCnt_per_deg := 1919.6418578623391, EncCnt_per_deg_per_s := 42941.66,
                EncCnt_per_deg_per_s2 := 14.66, move_tol_deg := 0.01, long_timeout_s := 40\<rparr>)))
           (\<lambda>_ s.
       bind_loop (Some (get_homed_status s)) (\<lambda>_ s.
       bind_loop (if \<not> homed s then home n s else Some (Inr (), s)) (\<lambda>_ s.
       bind_loop (Some (get_position_deg s)) (\<lambda>_ s.
       bind_loop (Some (set_velocity_parameters 25 25 s)) (\<lambda>_ s.
         Some (Inr (), s\<lparr>moving := False\<rparr>))))))))"
  proof (rule exchanges_checked_bind_loop)
    show "exchanges_checked_loop (new_object nm vb vvb p)
        (Some (get_info (new_object nm vb vvb p)))"
      by (rule exchanges_checked_loop_Some) (rule exchanges_checked_get_info)
  next
    fix w :: "byte list" and s1 :: controller
    let ?s2 = "s1\<lparr>EncCnt_per_deg := 1919.6418578623391, EncCnt_per_deg_per_s := 42941.66,
                EncCnt_per_deg_per_s2 := 14.66, move_tol_deg := 0.01, long_timeout_s := 40\<rparr>"
    have l: "log (port ?s2) = log (port s1)" by simp
    have "exchanges_checked_loop s1
      (bind_loop (Some (set_enable True ?s2)) (\<lambda>_ s.
       bind_loop (Some (get_homed_status s)) (\<lambda>_ s.
       bind_loop (if \<not> homed s then home n s else Some (Inr (), s)) (\<lambda>_ s.
       bind_loop (Some (get_position_deg s)) (\<lambda>_ s.
       bind_loop (Some (set_velocity_parameters 25 25 s)) (\<lambda>_ s.
         Some (Inr (), s\<lparr>moving := False\<rparr>)))))))"
      using tail [of ?s2] by (simp only: exchanges_checked_loop_start [OF l])
    then show "exchanges_checked_loop s1
       (if model_number s1 \<noteq> expected_model then Some (Inl AssertionError, s1)
        else if firmware_v s1 \<noteq> 131592 then Some (Inl AssertionError, s1)
        else
          bind_loop (Some (set_enable True ?s2))
           (\<lambda>_ s.
       bind_loop (Some (get_homed_status s)) (\<lambda>_ s.
       bind_loop (if \<not> homed s then home n s else Some (Inr (), s)) (\<lambda>_ s.
       bind_loop (Some (get_position_deg s)) (\<lambda>_ s.
       bind_loop (Some (set_velocity_parameters 25 25 s)) (\<lambda>_ s.
         Some (Inr (), s\<lparr>moving := False\<rparr>)))))))"
      by (simp add: exchanges_checked_loop_same_log)
  qed
  then show ?thesis
    unfolding Controller_init_def Let_def option.case .
qed

lemma send_outcome:
  assumes "send cmd response_bytes s = (r, s')"
  shows "(rx (port s') \<noteq> [] \<longrightarrow> r = Inl AssertionError) \<and>
         (rx (port s') = [] \<longrightarrow>
            (case response_bytes of
               None \<Rightarrow> r = Inr None
             | Some n \<Rightarrow>
                 (\<exists>bs. r = Inr (Some bs) \<and>
                    bs = take n (rx (arrive (port_write cmd (port s)))) \<and>
                    length bs = min n (length (rx (arrive (port_write cmd (port s))))))))"
proof (cases response_bytes)
  case None
  obtain k q where w: "port_inWaiting (port_write cmd (port s)) = (k, q)"
    by (cases "port_inWaiting (port_write cmd (port s))")
  from port_inWaiting_log [OF w] have "length (rx q) = k" by simp
  with assms None w show ?thesis
    by (auto simp: send_def Let_def split: if_splits)
next
  case (Some n)
  obtain bs p where rd: "port_read n (port_write cmd (port s)) = (bs, p)"
    by (cases "port_read n (port_write cmd (port s))")
  obtain k q where w: "port_inWaiting p = (k, q)" by (cases "port_inWaiting p")
  from rd have bs: "bs = take n (rx (arrive (port_write cmd (port s))))"
    by (auto simp: port_read_def Let_def)
  from port_inWaiting_log [OF w] have "length (rx q) = k" by simp
  with assms Some rd w bs show ?thesis
    by (auto simp: send_def Let_def split: if_splits)
qed

section \<open>Properties\<close>

text \<open>
  C9. Calling \<open>_finish_move\<close> when no move is outstanding (\<open>_moving\<close> is False) is a no-op:
  it returns at once, whatever the fuel, with the whole object, the port and its log of
  operations included, unchanged.
\<close>

theorem finish_move_idle_noop:
  "\<not> moving s \<Longrightarrow> finish_move n s = Some (Inr (), s)"
  by (simp add: finish_move_def)



theorem finish_move_idle_noop_witness:
  "\<not> moving (idle_session [position_reply 5]) \<and>
   finish_move 0 (idle_session [position_reply 5]) = Some (Inr (), idle_session [position_reply 5])"
  using finish_move_idle_noop [of "idle_session [position_reply 5]" 0]
  by (simp add: idle_session_def)






text \<open>
  C5. The round trip of the unit conversion. With the calibration constant of
  \<open>__init__\<close>, a degree value \<open>d\<close> in [0, 359.99] converted to counts as \<open>move_deg\<close> does
  (\<open>round(d * EncCnt_per_deg)\<close>) and back as \<open>get_position_deg\<close> does
  (\<open>counts / EncCnt_per_deg\<close>) is within 0.01 degree of \<open>d\<close>.
\<close>

theorem conversion_round_trip:
  assumes "EncCnt_per_deg s = 1919.6418578623391" and "0 \<le> d" and "d \<le> 359.99"
  shows "\<bar>of_int (py_round (d * EncCnt_per_deg s)) / EncCnt_per_deg s - d\<bar> \<le> 0.01"
proof -
  have "\<bar>of_int (py_round (d * 1919.6418578623391)) / 1919.6418578623391 - d\<bar>
      \<le> 1 / (2 * 1919.6418578623391)"
    by (rule round_trip_bound) simp
  also have "\<dots> \<le> 0.01" by simp
  finally show ?thesis unfolding assms(1) .
qed

theorem conversion_round_trip_witness:
  "EncCnt_per_deg (idle_session []) = 1919.6418578623391 \<and> (0::real) \<le> 359.99 \<and>
   \<bar>of_int (py_round (359.99 * EncCnt_per_deg (idle_session []))) / EncCnt_per_deg (idle_session [])
      - 359.99\<bar> \<le> 0.01 \<and>
   py_round (359.99 * EncCnt_per_deg (idle_session [])) = 691052"
proof -
  have a: "EncCnt_per_deg (idle_session []) = 1919.6418578623391"
    by (simp add: idle_session_def)
  have b: "(0::real) \<le> 359.99" "(359.99::real) \<le> 359.99" by simp_all
  have c: "py_round (359.99 * 1919.6418578623391) = 691052"
    by (simp add: py_round_def Let_def)
  have r: "\<bar>of_int (py_round (359.99 * EncCnt_per_deg (idle_session []))) /
      EncCnt_per_deg (idle_session []) - 359.99\<bar> \<le> 0.01"
    by (rule conversion_round_trip [OF a b])
  have c': "py_round (359.99 * EncCnt_per_deg (idle_session [])) = 691052"
    unfolding a by (rule c)
  from a b(1) r c' show ?thesis by blast
qed

text \<open>
  C4 does not hold of the code. \<open>get_position_deg\<close> and \<open>_get_velocity_parameters\<close> call
  \<open>int.from_bytes\<close> without \<open>signed=True\<close>, so the four bytes are read as an unsigned
  number: the bytes FF FF FF FF, which \<open>to_bytes(4, byteorder='little', signed=True)\<close>
  writes for -1 and which are -1 as a signed 32-bit integer, give the position count
  4294967295, and likewise for the acceleration and the maximum velocity. No reply gives
  a negative count.
\<close>

theorem payload_fields_decoded_unsigned:
  "to_bytes (- 1) = Inr [0xFF, 0xFF, 0xFF, 0xFF] \<and>
   sint (word_of_int (from_bytes [0xFF, 0xFF, 0xFF, 0xFF]) :: 32 word) = - 1 \<and>
   slice (position_reply (- 1)) 8 12 = [0xFF, 0xFF, 0xFF, 0xFF] \<and>
   position_counts (snd (get_position_deg (idle_session [[], position_reply (- 1), []])))
     = 4294967295 \<and>
   fst (get_velocity_parameters (idle_session [[], velocity_reply 0 (- 1) (- 1), []]))
     = Inr (4294967295 / 42941.66, 4294967295 / 14.66) \<and>
   0 \<le> from_bytes bs"
proof (intro conjI)
  show "0 \<le> from_bytes bs" by (rule from_bytes_nonneg)
qed code_simp+



text \<open>
  C6. Identity verification at connect time. Let the reply to the identity request be
  the bytes \<open>port.read(90)\<close> returns. If its model field does not decode to
  \<open>'KDC101\x00\x00'\<close> or its firmware field is not 131592, \<open>__init__\<close> raises (the
  AssertionError of one of its two assertions or of the buffer check, or the
  UnicodeDecodeError of a model field that is not ASCII), whatever the fuel, and the
  identity request is the only command written to the port.
\<close>

theorem connect_identity_mismatch:
  assumes "rsp = fst (port_read 90 (port_write get_info_cmd p))"
    and "decode (slice rsp 10 18) \<noteq> Inr expected_model \<or> from_bytes (slice rsp 20 24) \<noteq> 131592"
  shows "\<exists>e s evs. Controller_init n (Some p) nm vb vvb = Some (Inl e, s) \<and>
           (e = AssertionError \<or> e = UnicodeDecodeError) \<and>
           log (port s) = log p @ evs \<and> writes evs = [get_info_cmd]"
proof -
  let ?s0 = "new_object nm vb vvb p"
  have p0: "port ?s0 = p" by (simp add: new_object_def)
  obtain r s1 where g: "get_info ?s0 = (r, s1)" by (cases "get_info ?s0")
  from get_info_log [OF g] obtain evs where
    l: "log (port s1) = log p @ Write get_info_cmd # evs" "writes evs = []"
    unfolding p0 by blast
  then have w: "writes (Write get_info_cmd # evs) = [get_info_cmd]" by simp
  show ?thesis
  proof (cases r)
    case (Inl e)
    with g have "Controller_init n (Some p) nm vb vvb = Some (Inl e, s1)"
      by (simp add: Controller_init_def bind_loop_def)
    moreover from get_info_error [OF g [unfolded Inl]]
    have "e = AssertionError \<or> e = UnicodeDecodeError" .
    ultimately show ?thesis using l(1) w by blast
  next
    case (Inr v)
    from get_info_ok [OF g [unfolded Inr]] assms
    have "model_number s1 \<noteq> expected_model \<or> firmware_v s1 \<noteq> 131592"
      unfolding p0 by auto
    with g Inr have "Controller_init n (Some p) nm vb vvb = Some (Inl AssertionError, s1)"
      by (auto simp: Controller_init_def bind_loop_def)
    then show ?thesis using l(1) w by blast
  qed
qed

theorem connect_identity_mismatch_witness:
  "from_bytes (slice (fst (port_read 90 (port_write get_info_cmd
       (scripted_port [[], identity_reply KDC101 131594, [], [], []])))) 20 24) \<noteq> 131592 \<and>
   (\<exists>s. Controller_init 0 (Some (scripted_port [[], identity_reply KDC101 131594, [], [], []]))
           ''KPRM1E'' True False = Some (Inl AssertionError, s) \<and>
        writes (log (port s)) = [get_info_cmd])"
proof -
  let ?p = "scripted_port [[], identity_reply KDC101 131594, [], [], []]"
  let ?rsp = "fst (port_read 90 (port_write get_info_cmd ?p))"
  have a: "from_bytes (slice ?rsp 20 24) \<noteq> 131592" by code_simp
  then have b: "decode (slice ?rsp 10 18) \<noteq> Inr expected_model \<or>
      from_bytes (slice ?rsp 20 24) \<noteq> 131592" ..
  have c: "map_option fst (Controller_init 0 (Some ?p) ''KPRM1E'' True False)
      = Some (Inl AssertionError)" by code_simp
  have d: "log ?p = []" by (simp add: scripted_port_def)
  from connect_identity_mismatch [OF refl b, of 0 "''KPRM1E''" True False]
  obtain e s evs where
    "Controller_init 0 (Some ?p) ''KPRM1E'' True False = Some (Inl e, s)"
    "log (port s) = log ?p @ evs" "writes evs = [get_info_cmd]" by blast
  with c d have "Controller_init 0 (Some ?p) ''KPRM1E'' True False = Some (Inl AssertionError, s) \<and>
        writes (log (port s)) = [get_info_cmd]" by simp
  with a show ?thesis by blast
qed



text \<open>
  C10 as the code has it. \<open>_send\<close> checks the input buffer after every exchange: it
  raises AssertionError exactly when bytes are left unread, and when it returns the buffer
  is empty and the response is what the read delivered, which is at most the requested
  number of bytes: all of them if that many had arrived when the read returned, fewer
  otherwise, and a short response is returned like a full one. Every operation talks to
  the port through \<open>_send\<close> only, but for the one read of \<open>_finish_move\<close>: in the events of
  any run of any method every command written is followed by the check, a check that
  finds bytes ends the run, and it ends it with AssertionError.
\<close>

theorem send_checks_input_buffer:
  "(send cmd response_bytes s = (r, s') \<longrightarrow>
      (rx (port s') \<noteq> [] \<longrightarrow> r = Inl AssertionError) \<and>
      (rx (port s') = [] \<longrightarrow>
         (case response_bytes of
            None \<Rightarrow> r = Inr None
          | Some n \<Rightarrow>
              (\<exists>bs. r = Inr (Some bs) \<and>
                 bs = take n (rx (arrive (port_write cmd (port s)))) \<and>
                 length bs = min n (length (rx (arrive (port_write cmd (port s))))))))) \<and>
   exchanges_checked s (send cmd response_bytes s) \<and>
   exchanges_checked s (get_info s) \<and>
   exchanges_checked s (get_enable s) \<and>
   exchanges_checked s (set_enable en s) \<and>
   exchanges_checked s (get_homed_status s) \<and>
   exchanges_checked_loop s (home n s) \<and>
   exchanges_checked s (get_velocity_parameters s) \<and>
   exchanges_checked s (set_velocity_parameters max_vel accel s) \<and>
   exchanges_checked s (identify s) \<and>
   exchanges_checked s (get_position_deg s) \<and>
   exchanges_checked_loop s (finish_move n s) \<and>
   exchanges_checked_loop s (move_deg n deg relative block s) \<and>
   exchanges_checked_loop (new_object nm vb vvb p) (Controller_init n (Some p) nm vb vvb)"
  by (intro conjI impI exchanges_checked_send exchanges_checked_get_info
      exchanges_checked_get_enable exchanges_checked_set_enable
      exchanges_checked_get_homed_status exchanges_checked_home
      exchanges_checked_get_velocity_parameters exchanges_checked_set_velocity_parameters
      exchanges_checked_identify exchanges_checked_get_position_deg
      exchanges_checked_finish_move exchanges_checked_move_deg
      exchanges_checked_Controller_init)
     (simp_all add: send_outcome)

theorem send_checks_input_buffer_witness:
  "rx (port (snd (send get_position_cmd (Some 12) (idle_session [[], position_reply 7, []])))) = [] \<and>
   fst (send get_position_cmd (Some 12) (idle_session [[], position_reply 7, []]))
     = Inr (Some (position_reply 7)) \<and>
   rx (port (snd (send get_position_cmd (Some 12)
        (idle_session [[], position_reply 7 @ [0x00], []])))) \<noteq> [] \<and>
   fst (send get_position_cmd (Some 12) (idle_session [[], position_reply 7 @ [0x00], []]))
     = Inl AssertionError \<and>
   new_events (idle_session [[], position_reply 7 @ [0x00], []])
     (snd (get_position_deg (idle_session [[], position_reply 7 @ [0x00], []])))
     = [Write get_position_cmd, Read 12 (position_reply 7), InWaiting 1] \<and>
   checked [Write get_position_cmd, Read 12 (position_reply 7), InWaiting 1] \<and>
   fst (get_position_deg (idle_session [[], position_reply 7 @ [0x00], []])) = Inl AssertionError"
proof -
  let ?s = "idle_session [[], position_reply 7, []]"
  let ?t = "idle_session [[], position_reply 7 @ [0x00], []]"
  obtain r s' where a: "send get_position_cmd (Some 12) ?s = (r, s')"
    by (cases "send get_position_cmd (Some 12) ?s")
  have a1: "rx (port (snd (send get_position_cmd (Some 12) ?s))) = []" by code_simp
  have a2: "take 12 (rx (arrive (port_write get_position_cmd (port ?s)))) = position_reply 7"
    by code_simp
  from send_checks_input_buffer [of get_position_cmd "Some 12" ?s r s'] a a1 a2
  have 1: "fst (send get_position_cmd (Some 12) ?s) = Inr (Some (position_reply 7))"
    by auto
  obtain r2 s2 where b: "send get_position_cmd (Some 12) ?t = (r2, s2)"
    by (cases "send get_position_cmd (Some 12) ?t")
  have b1: "rx (port (snd (send get_position_cmd (Some 12) ?t))) \<noteq> []" by code_simp
  from send_checks_input_buffer [of get_position_cmd "Some 12" ?t r2 s2] b b1
  have 2: "fst (send get_position_cmd (Some 12) ?t) = Inl AssertionError"
    by auto
  have c1: "new_events ?t (snd (get_position_deg ?t))
     = [Write get_position_cmd, Read 12 (position_reply 7), InWaiting 1]" by code_simp
  have "exchanges_checked ?t (get_position_deg ?t)"
    using send_checks_input_buffer [of _ _ ?t] by blast
  then have c2: "checked [Write get_position_cmd, Read 12 (position_reply 7), InWaiting 1] \<and>
      (passed [Write get_position_cmd, Read 12 (position_reply 7), InWaiting 1] \<or>
       fst (get_position_deg ?t) = Inl AssertionError)"
    by (simp add: exchanges_checked_def Let_def c1)
  then have c3: "fst (get_position_deg ?t) = Inl AssertionError" by simp
  from a1 1 b1 2 c1 c2 c3 show ?thesis by blast
qed

theorem send_short_response_counterexample:
  "fst (send get_position_cmd (Some 12) (idle_session [[], [0x12, 0x04, 0x06, 0x00, 0x81], []]))
     = Inr (Some [0x12, 0x04, 0x06, 0x00, 0x81]) \<and>
   rx (port (snd (send get_position_cmd (Some 12)
       (idle_session [[], [0x12, 0x04, 0x06, 0x00, 0x81], []])))) = [] \<and>
   fst (get_position_deg (idle_session [[], [0x12, 0x04, 0x06, 0x00, 0x81], []])) = Inr 0"
  by code_simp

end
